theory Spec2Isabelle
  imports Complex_Main
begin

section \<open>Text, documents and collaborators\<close>

text \<open>
  A Python \<open>str\<close> is a sequence of Unicode code points and \<open>len\<close> counts code
  points, so a text is modelled as the list of its code points. The fixed Chinese
  messages of the source are given by their code points; \<open>ascii\<close> embeds an ASCII
  literal.
\<close>

type_synonym ustr = "nat list"

definition ascii :: "string \<Rightarrow> ustr" where
  "ascii s = map of_char s"

text \<open>\<open>sep.join(parts)\<close>.\<close>

fun join :: "ustr \<Rightarrow> ustr list \<Rightarrow> ustr" where
  "join sep [] = []"
| "join sep [x] = x"
| "join sep (x # y # ys) = x @ sep @ join sep (y # ys)"

text \<open>\<open>str(n)\<close> for a non-negative integer: its decimal digits.\<close>

fun str_nat :: "nat \<Rightarrow> ustr" where
  "str_nat n = (if n < 10 then [48 + n] else str_nat (n div 10) @ [48 + n mod 10])"

declare str_nat.simps [simp del]

text \<open>
  A retrieved document: its text and the two metadata keys the code reads,
  \<open>metadata['score']\<close> and \<open>metadata['source']\<close> (\<open>None\<close>: the key is missing).
  A score is a Python float, given by the rational number it denotes.
\<close>

record Document =
  page_content :: ustr
  metadata_score :: "rat option"
  metadata_source :: "ustr option"

text \<open>
  A Python float is an IEEE 754 double. It is modelled by the rational number it
  denotes (no NaN, no infinity), and comparisons of floats are comparisons of these
  numbers. The literals 0.0, 0.5 and 1.0 are binary fractions and denote 0, 1/2 and
  1; the literals 0.6 and 0.4 denote the doubles nearest to them.
\<close>

definition FLOAT_0_6 :: rat where
  "FLOAT_0_6 = 5404319552844595 / 9007199254740992"

definition FLOAT_0_4 :: rat where
  "FLOAT_0_4 = 3602879701896397 / 9007199254740992"

text \<open>
  What the running interpreter decides. The operations that round are parameters:
  \<open>fsum\<close> is \<open>sum\<close> on a list of numbers, and \<open>fdiv\<close>, \<open>fmul\<close> and \<open>fadd\<close> are
  \<open>/\<close>, \<open>*\<close> and \<open>+\<close> with a float result. \<open>list_of_set xs\<close> is
  \<open>list(set(xs))\<close>, whose order depends on the hash seed.
\<close>

record Runtime =
  fsum :: "rat list \<Rightarrow> rat"
  fdiv :: "rat \<Rightarrow> rat \<Rightarrow> rat"
  fmul :: "rat \<Rightarrow> rat \<Rightarrow> rat"
  fadd :: "rat \<Rightarrow> rat \<Rightarrow> rat"
  list_of_set :: "ustr list \<Rightarrow> ustr list"

text \<open>
  An exception is modelled by its message \<open>str(e)\<close>, carried in \<open>Inl\<close>.
  \<open>vectorstore.similarity_search(query, k)\<close> returns documents or raises.
  \<open>llm.generate(prompt)\<close> returns a text or raises; \<open>llm.stream_generate(prompt)\<close>
  yields its chunks and then either ends (\<open>None\<close>) or raises (\<open>Some e\<close>).
\<close>

type_synonym VectorStore = "ustr \<Rightarrow> int \<Rightarrow> ustr + Document list"

record LLM =
  generate :: "ustr \<Rightarrow> ustr + ustr"
  stream_generate :: "ustr \<Rightarrow> ustr list \<times> ustr option"

text \<open>
  A prompt template, already parsed: literal text and named replacement fields.
  \<open>template.format(**kwargs)\<close> raises \<open>KeyError\<close> for a field that \<open>kwargs\<close> does not
  name and ignores the keyword arguments the template does not use; the message of
  \<open>KeyError(name)\<close> is the name in single quotes.
\<close>

datatype piece = Lit ustr | Field ustr

fun format_template :: "piece list \<Rightarrow> (ustr \<times> ustr) list \<Rightarrow> ustr + ustr" where
  "format_template [] kwargs = Inr []"
| "format_template (Lit s # ps) kwargs =
     (case format_template ps kwargs of Inl e \<Rightarrow> Inl e | Inr r \<Rightarrow> Inr (s @ r))"
| "format_template (Field f # ps) kwargs =
     (case map_of kwargs f of
        None \<Rightarrow> Inl ([39] @ f @ [39])
      | Some v \<Rightarrow> (case format_template ps kwargs of Inl e \<Rightarrow> Inl e | Inr r \<Rightarrow> Inr (v @ r)))"

text \<open>The calls a step makes to its collaborators, in order.\<close>

datatype call = Search ustr int | Generate ustr | StreamGenerate ustr

section \<open>ConversationalRAGChain\<close>

record ConversationalRAGChain =
  llm :: LLM
  vectorstore :: VectorStore
  prompt_template :: "piece list"
  chat_history :: "(ustr \<times> ustr) list"
  max_history :: int

text \<open>The fixed answer when retrieval finds nothing (18 code points).\<close>

definition NO_DOCS_ANSWER :: ustr where
  "NO_DOCS_ANSWER =
     [0x62B1, 0x6B49, 0xFF0C, 0x6211, 0x5728, 0x77E5, 0x8BC6, 0x5E93, 0x4E2D,
      0x6CA1, 0x6709, 0x627E, 0x5230, 0x76F8, 0x5173, 0x4FE1, 0x606F, 0x3002]"

text \<open>The placeholder of \<open>_format_history\<close> for a first turn.\<close>

definition FIRST_ROUND :: ustr where
  "FIRST_ROUND = [0xFF08, 0x8FD9, 0x662F, 0x7B2C, 0x4E00, 0x8F6E, 0x5BF9, 0x8BDD, 0xFF09]"

definition USER_PREFIX :: ustr where
  "USER_PREFIX = [0x7528, 0x6237, 0x3A, 0x20]"

definition ASSISTANT_PREFIX :: ustr where
  "ASSISTANT_PREFIX = [0x52A9, 0x624B, 0x3A, 0x20]"

definition QUERY_FAILED :: ustr where
  "QUERY_FAILED =
     [0x5BF9, 0x8BDD, 0x20, 0x52, 0x41, 0x47, 0x20, 0x67E5, 0x8BE2, 0x5931, 0x8D25, 0x3A, 0x20]"

definition STREAM_QUERY_FAILED :: ustr where
  "STREAM_QUERY_FAILED =
     [0x6D41, 0x5F0F, 0x5BF9, 0x8BDD, 0x20, 0x52, 0x41, 0x47, 0x20, 0x67E5, 0x8BE2, 0x5931,
      0x8D25, 0x3A, 0x20]"

definition DOC_LABEL :: ustr where
  "DOC_LABEL = [0x6587, 0x6863]"

text \<open>
  The methods \<open>_add_to_history\<close> and \<open>_format_history\<close> are named here without
  their leading underscore.
  \<open>_add_to_history\<close>: append the turn, then drop the oldest one if the history is
  longer than \<open>max_history\<close>. \<open>pop(0)\<close> runs on a list that holds at least the turn
  just appended, so it cannot raise.
\<close>

definition add_to_history :: "ConversationalRAGChain \<Rightarrow> ustr \<Rightarrow> ustr \<Rightarrow> ConversationalRAGChain" where
  "add_to_history c q a =
     (let h = chat_history c @ [(q, a)]
      in c\<lparr>chat_history := (if int (length h) > max_history c then tl h else h)\<rparr>)"

definition format_history :: "ConversationalRAGChain \<Rightarrow> ustr" where
  "format_history c =
     (if chat_history c = [] then FIRST_ROUND
      else join [10] (concat (map (\<lambda>(q, a). [USER_PREFIX @ q, ASSISTANT_PREFIX @ a])
                                 (chat_history c))))"

text \<open>The numbered context of \<open>query\<close>: \<open>[label i]\<close>, a newline, the text; joined by a blank line.\<close>

definition chain_context :: "Document list \<Rightarrow> ustr" where
  "chain_context docs =
     join [10, 10]
       (map (\<lambda>(i, doc). ascii ''['' @ DOC_LABEL @ str_nat i @ ascii '']'' @ [10] @ page_content doc)
            (zip [1 ..< Suc (length docs)] docs))"

definition chain_prompt :: "ConversationalRAGChain \<Rightarrow> Document list \<Rightarrow> ustr \<Rightarrow> ustr + ustr" where
  "chain_prompt c docs q =
     format_template (prompt_template c)
       [(ascii ''history'', format_history c),
        (ascii ''context'', chain_context docs),
        (ascii ''question'', q)]"

text \<open>
  \<open>query\<close>: the result (\<open>Inl\<close>: the wrapped exception), the chain afterwards and
  the collaborator calls made.
\<close>

definition query :: "ConversationalRAGChain \<Rightarrow> ustr \<Rightarrow> int \<Rightarrow> (ustr + ustr) \<times> ConversationalRAGChain \<times> call list" where
  "query c q k =
     (case vectorstore c q k of
        Inl e \<Rightarrow> (Inl (QUERY_FAILED @ e), c, [Search q k])
      | Inr docs \<Rightarrow>
          if docs = [] then
            (Inr NO_DOCS_ANSWER, add_to_history c q NO_DOCS_ANSWER, [Search q k])
          else
            (case chain_prompt c docs q of
               Inl e \<Rightarrow> (Inl (QUERY_FAILED @ e), c, [Search q k])
             | Inr prompt \<Rightarrow>
                 (case generate (llm c) prompt of
                    Inl e \<Rightarrow> (Inl (QUERY_FAILED @ e), c, [Search q k, Generate prompt])
                  | Inr answer \<Rightarrow>
                      (Inr answer, add_to_history c q answer, [Search q k, Generate prompt]))))"

text \<open>
  \<open>stream_query\<close> is a generator. Its body is modelled by the sequence of events it
  performs when the consumer iterates it to exhaustion: collaborator calls, the
  increments it yields, the call of \<open>_add_to_history\<close>, and a final raise.
\<close>

datatype event =
    Call call
  | Yield ustr
  | AddHistory ustr ustr
  | Raise ustr

definition stream_query :: "ConversationalRAGChain \<Rightarrow> ustr \<Rightarrow> int \<Rightarrow> event list" where
  "stream_query c q k =
     (case vectorstore c q k of
        Inl e \<Rightarrow> [Call (Search q k), Raise (STREAM_QUERY_FAILED @ e)]
      | Inr relevant_docs \<Rightarrow>
          if relevant_docs = [] then
            [Call (Search q k), AddHistory q NO_DOCS_ANSWER, Yield NO_DOCS_ANSWER]
          else
            (case chain_prompt c relevant_docs q of
               Inl e \<Rightarrow> [Call (Search q k), Raise (STREAM_QUERY_FAILED @ e)]
             | Inr prompt \<Rightarrow>
                 (case stream_generate (llm c) prompt of
                    (chunks, failure) \<Rightarrow>
                      [Call (Search q k), Call (StreamGenerate prompt)] @ map Yield chunks @
                      (case failure of
                         None \<Rightarrow> [AddHistory q (concat chunks)]
                       | Some e \<Rightarrow> [Raise (STREAM_QUERY_FAILED @ e)]))))"

text \<open>
  A consumer that takes \<open>m\<close> increments and then abandons the generator has run the
  body up to the \<open>m\<close>-th \<open>yield\<close>; with \<open>m = 0\<close> the body has not started. A
  consumer that asks for more increments than there are runs the whole body.
\<close>

fun consumed :: "nat \<Rightarrow> event list \<Rightarrow> event list" where
  "consumed 0 evs = []"
| "consumed (Suc m) [] = []"
| "consumed (Suc m) (Yield s # evs) = Yield s # consumed m evs"
| "consumed (Suc m) (e # evs) = e # consumed (Suc m) evs"

text \<open>The increments a run delivered, and the chain after the events of a run.\<close>

fun increments :: "event list \<Rightarrow> ustr list" where
  "increments [] = []"
| "increments (Yield s # evs) = s # increments evs"
| "increments (e # evs) = increments evs"

fun after_events :: "ConversationalRAGChain \<Rightarrow> event list \<Rightarrow> ConversationalRAGChain" where
  "after_events c [] = c"
| "after_events c (AddHistory q a # evs) = after_events (add_to_history c q a) evs"
| "after_events c (e # evs) = after_events c evs"

fun calls_of :: "event list \<Rightarrow> call list" where
  "calls_of [] = []"
| "calls_of (Call x # evs) = x # calls_of evs"
| "calls_of (e # evs) = calls_of evs"

section \<open>The agent state and its nodes\<close>

text \<open>
  \<open>AgentState\<close> is a Python dict that the nodes read with \<open>state.get\<close>. A field is
  \<open>None\<close> when its key is missing or holds \<open>None\<close>; \<open>question\<close> is always there.
\<close>

record AgentState =
  question :: ustr
  retrieval_query :: "ustr option"
  retrieved_docs :: "Document list option"
  retrieval_score :: "rat option"
  need_more_context :: "bool option"
  answer :: "ustr option"
  confidence_score :: "rat option"
  current_node :: "ustr option"
  step_count :: "int option"
  max_steps :: "int option"
  error :: "ustr option"

text \<open>
  \<open>create_initial_state(question, max_steps)\<close>. Its \<open>messages\<close> list, which no
  node reads, is left out of the record.
\<close>

definition create_initial_state :: "ustr \<Rightarrow> int \<Rightarrow> AgentState" where
  "create_initial_state q budget =
     \<lparr>question = q, retrieval_query = None, retrieved_docs = None, retrieval_score = None,
      need_more_context = None, answer = None, confidence_score = None, current_node = None,
      step_count = Some 0, max_steps = Some budget, error = None\<rparr>"

text \<open>Python truthiness of an optional text: present and not empty.\<close>

definition truthy :: "ustr option \<Rightarrow> bool" where
  "truthy t = (case t of None \<Rightarrow> False | Some s \<Rightarrow> s \<noteq> [])"

text \<open>\<open>state.get("step_count", 0)\<close> and \<open>state.get("max_steps", 5)\<close>.\<close>

definition get_step_count :: "AgentState \<Rightarrow> int" where
  "get_step_count state = (case step_count state of None \<Rightarrow> 0 | Some n \<Rightarrow> n)"

definition get_max_steps :: "AgentState \<Rightarrow> int" where
  "get_max_steps state = (case max_steps state of None \<Rightarrow> 5 | Some n \<Rightarrow> n)"

definition RETRIEVE_FAILED :: ustr where
  "RETRIEVE_FAILED = [0x68C0, 0x7D22, 0x5931, 0x8D25, 0x3A, 0x20]"

definition GENERATE_FAILED :: ustr where
  "GENERATE_FAILED = [0x751F, 0x6210, 0x5931, 0x8D25, 0x3A, 0x20]"

text \<open>The fixed answer of \<open>generate_node\<close> when there are no documents (25 code points).\<close>

definition NO_INFO_ANSWER :: ustr where
  "NO_INFO_ANSWER =
     [0x62B1, 0x6B49, 0xFF0C, 0x6211, 0x5728, 0x77E5, 0x8BC6, 0x5E93, 0x4E2D, 0x6CA1, 0x6709,
      0x627E, 0x5230, 0x76F8, 0x5173, 0x4FE1, 0x606F, 0x6765, 0x56DE, 0x7B54, 0x60A8, 0x7684,
      0x95EE, 0x9898, 0x3002]"

text \<open>The fixed answer that the handler of \<open>generate_node\<close> stores next to the error.\<close>

definition GENERATION_ERROR_ANSWER :: ustr where
  "GENERATION_ERROR_ANSWER =
     [0x62B1, 0x6B49, 0xFF0C, 0x751F, 0x6210, 0x7B54, 0x6848, 0x65F6, 0x51FA, 0x73B0, 0x9519,
      0x8BEF, 0x3002]"

definition UNKNOWN_SOURCE :: ustr where
  "UNKNOWN_SOURCE = [0x672A, 0x77E5, 0x6765, 0x6E90]"

definition SOURCES_HEADER :: ustr where
  "SOURCES_HEADER = [0xA, 0xA, 0x53C2, 0x8003, 0x6765, 0x6E90, 0xFF1A, 0xA]"

subsection \<open>retrieve_node\<close>

text \<open>Step 1: \<open>state.get("retrieval_query") or state["question"]\<close>.\<close>

definition effective_query :: "AgentState \<Rightarrow> ustr" where
  "effective_query state =
     (case retrieval_query state of
        None \<Rightarrow> question state
      | Some q \<Rightarrow> if q = [] then question state else q)"

text \<open>Step 3: drop the documents below the threshold; a missing score counts as 1.\<close>

definition filter_docs :: "rat option \<Rightarrow> Document list \<Rightarrow> Document list" where
  "filter_docs score_threshold docs =
     (case score_threshold of
        None \<Rightarrow> docs
      | Some t \<Rightarrow> filter (\<lambda>doc. (case metadata_score doc of None \<Rightarrow> 1 | Some x \<Rightarrow> x) \<ge> t) docs)"

text \<open>
  Step 4: the quality score. The branch is chosen by the first document alone, and
  \<open>doc.metadata.get('score', 0)\<close> counts a document without score as 0. The
  division \<open>len(docs) / k\<close> raises \<open>ZeroDivisionError\<close> when \<open>k\<close> is 0.
\<close>

definition quality_score :: "Runtime \<Rightarrow> Document list \<Rightarrow> int \<Rightarrow> ustr + rat" where
  "quality_score rt docs k =
     (case docs of
        [] \<Rightarrow> Inr 0
      | d # _ \<Rightarrow>
          if metadata_score d \<noteq> None then
            Inr (fdiv rt
                   (fsum rt (map (\<lambda>doc. case metadata_score doc of None \<Rightarrow> 0 | Some x \<Rightarrow> x) docs))
                   (of_nat (length docs)))
          else if k = 0 then Inl (ascii ''division by zero'')
          else Inr (min (fdiv rt (of_nat (length docs)) (of_int k)) 1))"

text \<open>The handler of \<open>retrieve_node\<close>: the state was not changed before the exception.\<close>

definition retrieve_failed :: "AgentState \<Rightarrow> ustr \<Rightarrow> AgentState" where
  "retrieve_failed state e =
     state\<lparr>error := Some (RETRIEVE_FAILED @ e), retrieved_docs := Some [],
           retrieval_score := Some 0, need_more_context := Some True\<rparr>"

text \<open>
  \<open>create_retrieve_node(vectorstore, k, score_threshold)\<close> returns the node; the node
  returns the new state, and the model adds the collaborator calls it made.
\<close>

definition retrieve_node :: "Runtime \<Rightarrow> VectorStore \<Rightarrow> int \<Rightarrow> rat option \<Rightarrow> AgentState \<Rightarrow> AgentState \<times> call list" where
  "retrieve_node rt vs k score_threshold state =
     (let query = effective_query state in
      case vs query k of
        Inl e \<Rightarrow> (retrieve_failed state e, [Search query k])
      | Inr found \<Rightarrow>
          (let docs = filter_docs score_threshold found in
           case quality_score rt docs k of
             Inl e \<Rightarrow> (retrieve_failed state e, [Search query k])
           | Inr score \<Rightarrow>
               (state\<lparr>retrieved_docs := Some docs,
                      retrieval_score := Some score,
                      current_node := Some (ascii ''retrieve''),
                      step_count := Some (get_step_count state + 1),
                      need_more_context :=
                        Some (score < FLOAT_0_6 \<or> int (length docs) < k div 2)\<rparr>,
                [Search query k])))"

subsection \<open>generate_node\<close>

text \<open>The numbered context: \<open>[label i+1]\<close>, a newline, the text; joined by a blank line.\<close>

definition node_context :: "Document list \<Rightarrow> ustr" where
  "node_context docs =
     join [10, 10]
       (map (\<lambda>(i, doc). ascii ''['' @ DOC_LABEL @ ascii '' '' @ str_nat (i + 1) @ ascii '']'' @ [10]
                          @ page_content doc)
            (zip [0 ..< length docs] docs))"

text \<open>
  The optional list of sources. Python builds it from a \<open>set\<close>, so its order is
  the interpreter's.
\<close>

definition sources_suffix :: "Runtime \<Rightarrow> Document list \<Rightarrow> ustr" where
  "sources_suffix rt docs =
     SOURCES_HEADER @
     join [10]
       (map (\<lambda>s. ascii ''- '' @ s)
            (list_of_set rt
               (map (\<lambda>doc. case metadata_source doc of None \<Rightarrow> UNKNOWN_SOURCE | Some s \<Rightarrow> s)
                    docs)))"

text \<open>The handler of \<open>generate_node\<close>: the state was not changed before the exception.\<close>

definition generate_failed :: "AgentState \<Rightarrow> ustr \<Rightarrow> AgentState" where
  "generate_failed state e =
     state\<lparr>error := Some (GENERATE_FAILED @ e), answer := Some GENERATION_ERROR_ANSWER,
           confidence_score := Some 0\<rparr>"

text \<open>
  \<open>create_generate_node(llm, prompt_template, include_sources)\<close> returns the node;
  \<open>template\<close> is the template in force (\<open>prompt_template or default_template\<close>).
  \<open>state.get("retrieved_docs", [])\<close> is falsy for a missing key, for \<open>None\<close> and for
  the empty list.
\<close>

definition generate_node :: "Runtime \<Rightarrow> LLM \<Rightarrow> piece list \<Rightarrow> bool \<Rightarrow> AgentState \<Rightarrow> AgentState \<times> call list" where
  "generate_node rt model template include_sources state =
     (let docs = (case retrieved_docs state of None \<Rightarrow> [] | Some ds \<Rightarrow> ds) in
      if docs = [] then
        (state\<lparr>answer := Some NO_INFO_ANSWER,
               confidence_score := Some 0,
               current_node := Some (ascii ''generate''),
               step_count := Some (get_step_count state + 1)\<rparr>, [])
      else
        (case format_template template
                [(ascii ''context'', node_context docs), (ascii ''question'', question state)] of
           Inl e \<Rightarrow> (generate_failed state e, [])
         | Inr prompt \<Rightarrow>
             (case generate model prompt of
                Inl e \<Rightarrow> (generate_failed state e, [Generate prompt])
              | Inr generated \<Rightarrow>
                  (let answer = (if include_sources then generated @ sources_suffix rt docs
                                 else generated);
                       retrieval_score = (case retrieval_score state of None \<Rightarrow> 5 / 10 | Some x \<Rightarrow> x);
                       answer_length_score = min (fdiv rt (of_nat (length answer)) 100) 1;
                       confidence_score =
                         fadd rt (fmul rt retrieval_score (FLOAT_0_6))
                                 (fmul rt answer_length_score (FLOAT_0_4))
                   in (state\<lparr>answer := Some answer,
                             confidence_score := Some confidence_score,
                             current_node := Some (ascii ''generate''),
                             step_count := Some (get_step_count state + 1)\<rparr>,
                       [Generate prompt])))))"

subsection \<open>rewrite_query_node\<close>

text \<open>
  The query-rewrite node of the source. When the question holds one of the two
  pronouns it tests for, it stores a rewritten question, whose computation the
  source leaves out: \<open>resolve\<close> stands for it. Otherwise it stores the question.
  Nothing else is changed; in particular \<open>step_count\<close> is not.
\<close>

definition rewrite_query_node :: "(AgentState \<Rightarrow> ustr) \<Rightarrow> AgentState \<Rightarrow> AgentState" where
  "rewrite_query_node resolve state =
     (if 0x5B83 \<in> set (question state) \<or> 0x4ED6 \<in> set (question state)
      then state\<lparr>retrieval_query := Some (resolve state)\<rparr>
      else state\<lparr>retrieval_query := Some (question state)\<rparr>)"

subsection \<open>decide_node\<close>

text \<open>
  The node names that \<open>decide_node\<close> returns as strings: \<open>"retrieve"\<close>,
  \<open>"rewrite_query"\<close>, \<open>"generate"\<close> and \<open>"end"\<close>.
\<close>

datatype decision = RETRIEVE | REWRITE_QUERY | GENERATE | END

definition decide_node :: "AgentState \<Rightarrow> decision" where
  "decide_node state =
     (if get_step_count state \<ge> get_max_steps state then END
      else if truthy (answer state) then END
      else if truthy (error state) then END
      else if retrieved_docs state = None then RETRIEVE
      else
        (let retrieval_score = (case retrieval_score state of None \<Rightarrow> 0 | Some x \<Rightarrow> x);
             need_more_context = (case need_more_context state of None \<Rightarrow> False | Some b \<Rightarrow> b)
         in if need_more_context \<and> retrieval_score < 5 / 10 then REWRITE_QUERY
            else if retrieved_docs state \<noteq> Some [] \<and> \<not> truthy (answer state) then GENERATE
            else END))"

section \<open>The orchestrator loop\<close>

text \<open>
  Modelled from the spec: the driver loop of the agent (the graph definition
  \<open>src/agent/graph.py\<close> is not among the sources). The loop asks \<open>decide_node\<close> for
  the next step, returns the state on \<open>END\<close>, and otherwise runs the named step and
  repeats. The query-rewrite step is left open by the spec: it is a parameter, and
  when rewriting is unavailable (\<open>None\<close>) the loop falls back to the generation step.

  The collaborators may answer differently each time they are asked: \<open>stores n\<close> and
  \<open>llms n\<close> are the document store and the language model as they behave at the
  step execution number \<open>n\<close> (counted from 0).
\<close>

record Orchestrator =
  runtime :: Runtime
  stores :: "nat \<Rightarrow> VectorStore"
  llms :: "nat \<Rightarrow> LLM"
  top_k :: int
  score_threshold :: "rat option"
  template :: "piece list"
  include_sources :: bool
  rewrite_step :: "(AgentState \<Rightarrow> AgentState) option"

text \<open>
  Modelled from the spec: the dispatch of the loop, which is not among the sources.
  One step execution, the \<open>n\<close>-th of the turn, for a decision other than \<open>END\<close>.
\<close>

definition run_step :: "Orchestrator \<Rightarrow> nat \<Rightarrow> decision \<Rightarrow> AgentState \<Rightarrow> AgentState \<times> call list" where
  "run_step orch n d state =
     (case d of
        RETRIEVE \<Rightarrow>
          retrieve_node (runtime orch) (stores orch n) (top_k orch) (score_threshold orch) state
      | GENERATE \<Rightarrow>
          generate_node (runtime orch) (llms orch n) (template orch) (include_sources orch) state
      | REWRITE_QUERY \<Rightarrow>
          (case rewrite_step orch of
             Some rewrite \<Rightarrow> (rewrite state, [])
           | None \<Rightarrow>
               generate_node (runtime orch) (llms orch n) (template orch) (include_sources orch) state)
      | END \<Rightarrow> (state, []))"

text \<open>
  Modelled from the spec: the loop itself, which is not among the sources. It is
  given fuel: \<open>None\<close> means that the loop was still running after \<open>fuel\<close>
  decisions. The result is the final state, the number of step executions and the
  collaborator calls.
\<close>

fun run_loop :: "nat \<Rightarrow> Orchestrator \<Rightarrow> nat \<Rightarrow> call list \<Rightarrow> AgentState \<Rightarrow> (AgentState \<times> nat \<times> call list) option" where
  "run_loop 0 orch n made state = None"
| "run_loop (Suc fuel) orch n made state =
     (case decide_node state of
        END \<Rightarrow> Some (state, n, made)
      | d \<Rightarrow> (case run_step orch n d state of
                (state', calls) \<Rightarrow> run_loop fuel orch (Suc n) (made @ calls) state'))"

text \<open>
  Modelled from the spec: the entry point \<open>run(question, step_budget)\<close>, which is not
  among the sources. It starts the loop on a fresh state with \<open>step_count = 0\<close>.
\<close>

definition run_turn :: "nat \<Rightarrow> Orchestrator \<Rightarrow> ustr \<Rightarrow> int \<Rightarrow> (AgentState \<times> nat \<times> call list) option" where
  "run_turn fuel orch q step_budget = run_loop fuel orch 0 [] (create_initial_state q step_budget)"

subsection \<open>An invariant of the loop\<close>

text \<open>
  What holds of the state before every decision of a turn with budget \<open>budget\<close>:
  the budget is fixed and not exceeded; before the first retrieval there is neither
  an answer nor an error; an empty retrieval result is flagged as insufficient with
  score 0; and an error is either a retrieval failure without an answer or a
  generation failure next to the fixed apology.
\<close>

definition turn_invariant :: "int \<Rightarrow> AgentState \<Rightarrow> bool" where
  "turn_invariant budget s \<longleftrightarrow>
     max_steps s = Some budget
     \<and> (\<exists>c. step_count s = Some c \<and> c \<le> budget)
     \<and> (retrieved_docs s = None \<longrightarrow> answer s = None \<and> error s = None)
     \<and> (retrieved_docs s = Some [] \<longrightarrow>
          need_more_context s = Some True \<and> retrieval_score s = Some 0)
     \<and> (error s = None
        \<or> (answer s = None \<and> (\<exists>e. error s = Some (RETRIEVE_FAILED @ e)))
        \<or> (answer s = Some GENERATION_ERROR_ANSWER \<and> (\<exists>e. error s = Some (GENERATE_FAILED @ e))))"

section \<open>Example collaborators\<close>

text \<open>
  Concrete stubs on which the theorems below are instantiated. \<open>exact_runtime\<close>
  computes without rounding; the examples that use it involve only numbers on
  which floating point arithmetic is exact, unless they say otherwise.
\<close>

definition exact_runtime :: Runtime where
  "exact_runtime =
     \<lparr>fsum = sum_list, fdiv = (\<lambda>x y. x / y), fmul = (\<lambda>x y. x * y),
      fadd = (\<lambda>x y. x + y), list_of_set = remdups\<rparr>"

definition stub_llm :: LLM where
  "stub_llm =
     \<lparr>generate = (\<lambda>p. Inr (ascii ''ok'')),
      stream_generate = (\<lambda>p. ([ascii ''o'', ascii ''k''], None))\<rparr>"

definition example_chain :: "VectorStore \<Rightarrow> (ustr \<times> ustr) list \<Rightarrow> ConversationalRAGChain" where
  "example_chain vs h =
     \<lparr>llm = stub_llm, vectorstore = vs,
      prompt_template = [Field (ascii ''history''), Field (ascii ''context''), Field (ascii ''question'')],
      chat_history = h, max_history = 3\<rparr>"

definition empty_store :: VectorStore where
  "empty_store = (\<lambda>q k. Inr [])"


definition example_doc :: Document where
  "example_doc = \<lparr>page_content = ascii ''text'', metadata_score = None, metadata_source = None\<rparr>"

definition one_doc_store :: VectorStore where
  "one_doc_store = (\<lambda>q k. Inr [example_doc])"

definition scored_doc :: "rat \<Rightarrow> Document" where
  "scored_doc x = \<lparr>page_content = ascii ''text'', metadata_score = Some x, metadata_source = None\<rparr>"

definition fixed_store :: "Document list \<Rightarrow> VectorStore" where
  "fixed_store docs = (\<lambda>q k. Inr docs)"

definition failing_store :: VectorStore where
  "failing_store = (\<lambda>q k. Inl (ascii ''timeout''))"

definition needy_state :: "rat \<Rightarrow> Document list \<Rightarrow> AgentState" where
  "needy_state x docs =
     (create_initial_state (ascii ''q'') 5)
       \<lparr>retrieved_docs := Some docs, retrieval_score := Some x,
        need_more_context := Some True, step_count := Some 1\<rparr>"

definition failing_llm :: LLM where
  "failing_llm =
     \<lparr>generate = (\<lambda>p. Inl (ascii ''unreachable'')),
      stream_generate = (\<lambda>p. ([], Some (ascii ''unreachable'')))\<rparr>"

definition example_orchestrator :: "VectorStore \<Rightarrow> LLM \<Rightarrow> int \<Rightarrow> Orchestrator" where
  "example_orchestrator vs model k =
     \<lparr>runtime = exact_runtime, stores = (\<lambda>n. vs), llms = (\<lambda>n. model), top_k = k,
      score_threshold = None,
      template = [Field (ascii ''context''), Field (ascii ''question'')],
      include_sources = False, rewrite_step = None\<rparr>"

definition source_orchestrator :: "VectorStore \<Rightarrow> LLM \<Rightarrow> int \<Rightarrow> Orchestrator" where
  "source_orchestrator vs model k =
     (example_orchestrator vs model k)\<lparr>rewrite_step := Some (rewrite_query_node question)\<rparr>"

section \<open>ConversationMemory: bounded, first in first out\<close>

lemma add_to_history_length:
  "int (length (chat_history c)) \<le> max_history c \<Longrightarrow>
   int (length (chat_history (add_to_history c q a))) \<le> max_history c"
  by (simp add: add_to_history_def Let_def)

lemma add_to_history_max_history [simp]: "max_history (add_to_history c q a) = max_history c"
  by (simp add: add_to_history_def Let_def)

lemma add_turns_length:
  "int (length (chat_history c)) \<le> max_history c \<Longrightarrow>
   int (length (chat_history (foldl (\<lambda>c (q, a). add_to_history c q a) c turns))) \<le> max_history c"
proof (induction turns arbitrary: c)
  case Nil
  then show ?case by simp
next
  case (Cons t turns)
  obtain q a where t: "t = (q, a)" by (cases t)
  have "int (length (chat_history (add_to_history c q a))) \<le> max_history (add_to_history c q a)"
    using Cons.prems by (simp add: add_to_history_length)
  from Cons.IH [OF this] show ?case by (simp add: t)
qed

text \<open>
  C7. The history never holds more than \<open>max_history\<close> turns: an append keeps the
  bound, and so does every sequence of appends to a fresh history. Below capacity the
  turn is appended; at capacity the oldest turn is dropped and the new one appended.
  With capacity 3, the four turns \<open>(q1,a1)\<close> to \<open>(q4,a4)\<close> leave exactly
  \<open>[(q2,a2), (q3,a3), (q4,a4)]\<close>.
\<close>

theorem memory_bounded_fifo:
  "(int (length (chat_history c)) \<le> max_history c \<longrightarrow>
      int (length (chat_history (add_to_history c q a))) \<le> max_history c)
   \<and> (chat_history c = [] \<and> 0 \<le> max_history c \<longrightarrow>
      int (length (chat_history (foldl (\<lambda>c (q, a). add_to_history c q a) c turns))) \<le> max_history c)
   \<and> (int (length (chat_history c)) < max_history c \<longrightarrow>
      chat_history (add_to_history c q a) = chat_history c @ [(q, a)])
   \<and> (int (length (chat_history c)) = max_history c \<and> chat_history c \<noteq> [] \<longrightarrow>
      chat_history (add_to_history c q a) = tl (chat_history c) @ [(q, a)])
   \<and> (chat_history c = [] \<and> max_history c = 3 \<longrightarrow>
      chat_history (foldl (\<lambda>c (q, a). add_to_history c q a) c
         [(q1, a1), (q2, a2), (q3, a3), (q4, a4)]) = [(q2, a2), (q3, a3), (q4, a4)])"
proof (intro conjI impI)
  assume "chat_history c = [] \<and> 0 \<le> max_history c"
  then show "int (length (chat_history (foldl (\<lambda>c (q, a). add_to_history c q a) c turns))) \<le> max_history c"
    by (intro add_turns_length) simp
qed (auto simp: add_to_history_def Let_def)

theorem memory_bounded_fifo_witness:
  "chat_history (example_chain empty_store []) = []
   \<and> max_history (example_chain empty_store []) = 3
   \<and> int (length (chat_history (example_chain empty_store []))) < 3
   \<and> chat_history (add_to_history (example_chain empty_store []) [1] [2]) = [([1], [2])]
   \<and> int (length (chat_history (foldl (\<lambda>c (q, a). add_to_history c q a) (example_chain empty_store [])
          [([1], [2]), ([3], [4]), ([5], [6]), ([7], [8]), ([9], [10])]))) \<le> 3
   \<and> chat_history (foldl (\<lambda>c (q, a). add_to_history c q a) (example_chain empty_store [])
          [([1], [2]), ([3], [4]), ([5], [6]), ([7], [8])]) = [([3], [4]), ([5], [6]), ([7], [8])]
   \<and> int (length (chat_history (example_chain empty_store [([1], [2]), ([3], [4]), ([5], [6])]))) = 3
   \<and> chat_history (add_to_history (example_chain empty_store [([1], [2]), ([3], [4]), ([5], [6])]) [7] [8])
        = [([3], [4]), ([5], [6]), ([7], [8])]"
  using memory_bounded_fifo [of "example_chain empty_store []" "[1]" "[2]"
          "[([1], [2]), ([3], [4]), ([5], [6]), ([7], [8]), ([9], [10])]"
          "[1]" "[2]" "[3]" "[4]" "[5]" "[6]" "[7]" "[8]"]
        memory_bounded_fifo [of "example_chain empty_store [([1], [2]), ([3], [4]), ([5], [6])]" "[7]" "[8]"]
  by (simp add: example_chain_def)

section \<open>The conversational chain: blocking and streaming queries\<close>

lemma increments_map_Yield [simp]: "increments (map Yield xs @ evs) = xs @ increments evs"
  by (induction xs) auto

lemma after_events_map_Yield [simp]: "after_events c (map Yield xs @ evs) = after_events c evs"
  by (induction xs) auto

lemma after_events_Yields [simp]: "after_events c (map Yield xs) = c"
  using after_events_map_Yield [of c xs "[]"] by simp

lemma consumed_map_Yield:
  "m \<le> length xs \<Longrightarrow> consumed m (map Yield xs @ evs) = map Yield (take m xs)"
proof (induction xs arbitrary: m)
  case Nil
  then show ?case by simp
next
  case (Cons x xs)
  then show ?case by (cases m) auto
qed

lemma consumed_all: "length (increments evs) < m \<Longrightarrow> consumed m evs = evs"
  by (induction m evs rule: consumed.induct) auto

lemma last_add_to_history:
  "1 \<le> max_history c \<Longrightarrow> last (chat_history (add_to_history c q a)) = (q, a)"
  by (cases "chat_history c") (auto simp: add_to_history_def Let_def)

text \<open>
  C10. When the store returns no document, both \<open>query\<close> and \<open>stream_query\<close> hand
  the fixed answer to \<open>_add_to_history\<close> together with the question, so the history
  is changed although the only collaborator call is the search (the language model
  is not called). With a capacity of at least one, the turn is the newest entry of
  the history.
\<close>

theorem empty_retrieval_recorded:
  assumes "vectorstore c q k = Inr []"
  shows "query c q k = (Inr NO_DOCS_ANSWER, add_to_history c q NO_DOCS_ANSWER, [Search q k])
    \<and> stream_query c q k = [Call (Search q k), AddHistory q NO_DOCS_ANSWER, Yield NO_DOCS_ANSWER]
    \<and> increments (stream_query c q k) = [NO_DOCS_ANSWER]
    \<and> after_events c (stream_query c q k) = add_to_history c q NO_DOCS_ANSWER
    \<and> calls_of (stream_query c q k) = [Search q k]
    \<and> (1 \<le> max_history c \<longrightarrow>
          last (chat_history (add_to_history c q NO_DOCS_ANSWER)) = (q, NO_DOCS_ANSWER))"
  using assms by (simp add: query_def stream_query_def last_add_to_history)

theorem empty_retrieval_recorded_witness:
  "vectorstore (example_chain empty_store []) (ascii ''anything'') 4 = Inr []
   \<and> 1 \<le> max_history (example_chain empty_store [])
   \<and> fst (query (example_chain empty_store []) (ascii ''anything'') 4) = Inr NO_DOCS_ANSWER
   \<and> chat_history (fst (snd (query (example_chain empty_store []) (ascii ''anything'') 4)))
        = [(ascii ''anything'', NO_DOCS_ANSWER)]
   \<and> chat_history (after_events (example_chain empty_store [])
         (stream_query (example_chain empty_store []) (ascii ''anything'') 4))
        = [(ascii ''anything'', NO_DOCS_ANSWER)]"
  using empty_retrieval_recorded [of "example_chain empty_store []" "ascii ''anything''" 4]
  by (simp add: example_chain_def empty_store_def add_to_history_def)

text \<open>
  C8. Take a question for which the store returns documents and the prompt is built,
  and a language model whose streamed chunks concatenate to what its blocking call
  returns for that prompt. Then the increments of \<open>stream_query\<close> are those chunks,
  their concatenation is the text that \<open>query\<close> returns, and the chain after the
  drained stream is the chain after \<open>query\<close>: the turn recorded is the question with
  that concatenation. A consumer that stops after any number of increments, up to
  all of them, leaves the history untouched; the turn is recorded only when the
  consumer asks again after the last increment.
\<close>

theorem streaming_equals_blocking:
  assumes search: "vectorstore c q k = Inr docs" and docs: "docs \<noteq> []"
    and prompt: "chain_prompt c docs q = Inr prompt"
    and stream: "stream_generate (llm c) prompt = (chunks, None)"
    and blocking: "generate (llm c) prompt = Inr (concat chunks)"
  shows "increments (stream_query c q k) = chunks
    \<and> fst (query c q k) = Inr (concat (increments (stream_query c q k)))
    \<and> after_events c (stream_query c q k) = add_to_history c q (concat (increments (stream_query c q k)))
    \<and> after_events c (stream_query c q k) = fst (snd (query c q k))
    \<and> (\<forall>m. m \<le> length chunks \<longrightarrow> after_events c (consumed m (stream_query c q k)) = c)
    \<and> (\<forall>m. length chunks < m \<longrightarrow> consumed m (stream_query c q k) = stream_query c q k)"
proof -
  have sq: "stream_query c q k =
      [Call (Search q k), Call (StreamGenerate prompt)] @ map Yield chunks @ [AddHistory q (concat chunks)]"
    using assms by (simp add: stream_query_def)
  have qq: "query c q k = (Inr (concat chunks), add_to_history c q (concat chunks), [Search q k, Generate prompt])"
    using assms by (simp add: query_def)
  have inc: "increments (stream_query c q k) = chunks"
    by (simp add: sq)
  have part: "after_events c (consumed m (stream_query c q k)) = c" if "m \<le> length chunks" for m
  proof (cases m)
    case 0
    then show ?thesis by simp
  next
    case (Suc n)
    then show ?thesis using that by (simp add: sq consumed_map_Yield)
  qed
  have full: "consumed m (stream_query c q k) = stream_query c q k" if "length chunks < m" for m
    using that consumed_all [of "stream_query c q k" m] by (simp add: inc)
  show ?thesis
    using part full by (simp add: inc qq) (simp add: sq)
qed

theorem streaming_equals_blocking_witness:
  "vectorstore (example_chain one_doc_store []) [65] 4 = Inr [example_doc]
   \<and> [example_doc] \<noteq> []
   \<and> (\<exists>prompt. chain_prompt (example_chain one_doc_store []) [example_doc] [65] = Inr prompt
        \<and> stream_generate (llm (example_chain one_doc_store [])) prompt = ([ascii ''o'', ascii ''k''], None)
        \<and> generate (llm (example_chain one_doc_store [])) prompt = Inr (concat [ascii ''o'', ascii ''k'']))
   \<and> increments (stream_query (example_chain one_doc_store []) [65] 4) = [ascii ''o'', ascii ''k'']
   \<and> fst (query (example_chain one_doc_store []) [65] 4) = Inr (ascii ''ok'')
   \<and> chat_history (after_events (example_chain one_doc_store [])
         (stream_query (example_chain one_doc_store []) [65] 4)) = [([65], ascii ''ok'')]
   \<and> chat_history (after_events (example_chain one_doc_store [])
         (consumed 2 (stream_query (example_chain one_doc_store []) [65] 4))) = []"
proof -
  let ?c = "example_chain one_doc_store []"
  obtain prompt where p: "chain_prompt ?c [example_doc] [65] = Inr prompt"
    by (simp add: chain_prompt_def example_chain_def ascii_def)
  have s: "vectorstore ?c [65] 4 = Inr [example_doc]"
    by (simp add: example_chain_def one_doc_store_def)
  have st: "stream_generate (llm ?c) prompt = ([ascii ''o'', ascii ''k''], None)"
    by (simp add: example_chain_def stub_llm_def)
  have bl: "generate (llm ?c) prompt = Inr (concat [ascii ''o'', ascii ''k''])"
    by (simp add: example_chain_def stub_llm_def ascii_def)
  have h: "chat_history ?c = []" "max_history ?c = 3"
    by (simp_all add: example_chain_def)
  show ?thesis
    using streaming_equals_blocking [OF s _ p st bl] s p st bl h
    by (auto simp: add_to_history_def ascii_def)
qed

section \<open>The retrieval step\<close>

lemma retrieve_node_ok:
  "vs (effective_query state) k = Inr found \<Longrightarrow>
   quality_score rt (filter_docs thr found) k = Inr score \<Longrightarrow>
   retrieve_node rt vs k thr state =
     (state\<lparr>retrieved_docs := Some (filter_docs thr found),
            retrieval_score := Some score,
            current_node := Some (ascii ''retrieve''),
            step_count := Some (get_step_count state + 1),
            need_more_context :=
              Some (score < FLOAT_0_6 \<or> int (length (filter_docs thr found)) < k div 2)\<rparr>,
      [Search (effective_query state) k])"
  by (simp add: retrieve_node_def Let_def)

lemma retrieve_node_search_failed:
  "vs (effective_query state) k = Inl e \<Longrightarrow>
   retrieve_node rt vs k thr state = (retrieve_failed state e, [Search (effective_query state) k])"
  by (simp add: retrieve_node_def Let_def)

lemma retrieve_node_score_failed:
  "vs (effective_query state) k = Inr found \<Longrightarrow>
   quality_score rt (filter_docs thr found) k = Inl e \<Longrightarrow>
   retrieve_node rt vs k thr state = (retrieve_failed state e, [Search (effective_query state) k])"
  by (simp add: retrieve_node_def Let_def)

lemma retrieve_node_cases:
  obtains (ok) found score where "vs (effective_query state) k = Inr found"
      "quality_score rt (filter_docs thr found) k = Inr score"
  | (failed) e where "retrieve_node rt vs k thr state = (retrieve_failed state e, [Search (effective_query state) k])"
proof (cases "vs (effective_query state) k")
  case (Inl e)
  then show ?thesis using failed retrieve_node_search_failed by blast
next
  case (Inr found)
  show ?thesis
  proof (cases "quality_score rt (filter_docs thr found) k")
    case (Inl e)
    then show ?thesis using failed retrieve_node_score_failed Inr by blast
  next
    case (Inr score)
    then show ?thesis using ok \<open>vs (effective_query state) k = Inr found\<close> by blast
  qed
qed

lemma quality_score_Inl:
  "quality_score rt docs k = Inl e \<longleftrightarrow>
     e = ascii ''division by zero'' \<and> k = 0
     \<and> (case docs of [] \<Rightarrow> False | d # _ \<Rightarrow> metadata_score d = None)"
  by (auto simp: quality_score_def split: list.splits if_splits)

lemma quality_score_Inr:
  "\<not> (k = 0 \<and> (case docs of [] \<Rightarrow> False | d # _ \<Rightarrow> metadata_score d = None)) \<Longrightarrow>
   quality_score rt docs k = Inr
     (case docs of
        [] \<Rightarrow> 0
      | d # ds \<Rightarrow>
          if metadata_score d \<noteq> None then
            fdiv rt (fsum rt (map (\<lambda>doc. case metadata_score doc of None \<Rightarrow> 0 | Some x \<Rightarrow> x) docs))
              (of_nat (length docs))
          else min (fdiv rt (of_nat (length docs)) (of_int k)) 1)"
  by (auto simp: quality_score_def split: list.splits)

lemma sum_list_scores:
  "\<forall>d\<in>set docs. metadata_score d \<noteq> None \<Longrightarrow>
   map (\<lambda>doc. case metadata_score doc of None \<Rightarrow> 0 | Some x \<Rightarrow> x) docs
     = map (\<lambda>doc. the (metadata_score doc)) docs"
  by (induction docs) auto

text \<open>
  C5, as stated, fails: the branch is chosen by the first fragment alone and a
  fragment without score counts as 0. For a result whose first fragment has score 1
  and whose three other fragments have none, with \<open>k = 4\<close>, the node stores 0.25:
  neither the mean of the scores that the fragments carry, which is 1, nor
  \<open>min(4 / 4, 1)\<close>, which is 1. All numbers involved are exact in floating point.
\<close>

theorem mixed_scores_counterexample:
  "retrieval_score (fst (retrieve_node exact_runtime
      (fixed_store [scored_doc 1, example_doc, example_doc, example_doc]) 4 None
      (create_initial_state (ascii ''q'') 5))) = Some (1 / 4)
   \<and> (1 / 4 :: rat) \<noteq> sum_list [1] / 1
   \<and> (1 / 4 :: rat) \<noteq> min (4 / 4) 1"
  by (simp add: retrieve_node_def fixed_store_def scored_doc_def example_doc_def
      create_initial_state_def effective_query_def filter_docs_def quality_score_def
      exact_runtime_def Let_def)

text \<open>
  C5, amended. The score is computed from the fragments kept by the optional score
  threshold (all of them by default), in the interpreter's float arithmetic. When
  the search raises, the score is 0. When no fragment is kept, the score is 0.
  When the first kept fragment carries a score, the score is \<open>sum(scores)\<close> divided
  by the number of kept fragments, where a fragment without score counts as 0; so
  when every returned fragment carries a score and there is no threshold, it is the
  mean of those scores. Otherwise the score is \<open>min(len / k, 1)\<close>, and 0 when \<open>k\<close> is
  0 (the division raises and the handler stores 0). Computed without rounding, the
  scores 0.9, 0.7, 0.5, 0.3 with \<open>k = 4\<close> give 0.6, and two fragments without scores
  with \<open>k = 4\<close> give 0.5.
\<close>

theorem retrieval_score_rule:
  "(vs (effective_query state) k = Inl e \<longrightarrow>
      retrieval_score (fst (retrieve_node rt vs k thr state)) = Some 0)
   \<and> (vs (effective_query state) k = Inr found \<longrightarrow>
      retrieval_score (fst (retrieve_node rt vs k thr state)) = Some
        (case filter_docs thr found of
           [] \<Rightarrow> 0
         | d # ds \<Rightarrow>
             if metadata_score d \<noteq> None then
               fdiv rt
                 (fsum rt (map (\<lambda>doc. case metadata_score doc of None \<Rightarrow> 0 | Some x \<Rightarrow> x) (d # ds)))
                 (of_nat (length (d # ds)))
             else if k = 0 then 0
             else min (fdiv rt (of_nat (length (d # ds))) (of_int k)) 1))
   \<and> (vs (effective_query state) k = Inr docs \<and> docs \<noteq> []
        \<and> (\<forall>d\<in>set docs. metadata_score d \<noteq> None) \<longrightarrow>
      retrieval_score (fst (retrieve_node rt vs k None state))
        = Some (fdiv rt (fsum rt (map (\<lambda>d. the (metadata_score d)) docs)) (of_nat (length docs))))
   \<and> (vs (effective_query state) k = Inr docs \<and> docs \<noteq> []
        \<and> (\<forall>d\<in>set docs. metadata_score d = None) \<and> k \<noteq> 0 \<longrightarrow>
      retrieval_score (fst (retrieve_node rt vs k None state))
        = Some (min (fdiv rt (of_nat (length docs)) (of_int k)) 1))
   \<and> retrieval_score (fst (retrieve_node exact_runtime
        (fixed_store [scored_doc (9 / 10), scored_doc (7 / 10), scored_doc (5 / 10), scored_doc (3 / 10)])
        4 None state)) = Some (6 / 10)
   \<and> retrieval_score (fst (retrieve_node exact_runtime (fixed_store [example_doc, example_doc]) 4 None state))
        = Some (5 / 10)"
proof (intro conjI impI)
  assume "vs (effective_query state) k = Inl e"
  then show "retrieval_score (fst (retrieve_node rt vs k thr state)) = Some 0"
    by (simp add: retrieve_node_search_failed retrieve_failed_def)
next
  assume found: "vs (effective_query state) k = Inr found"
  let ?kept = "filter_docs thr found"
  show "retrieval_score (fst (retrieve_node rt vs k thr state)) = Some
        (case ?kept of
           [] \<Rightarrow> 0
         | d # ds \<Rightarrow>
             if metadata_score d \<noteq> None then
               fdiv rt
                 (fsum rt (map (\<lambda>doc. case metadata_score doc of None \<Rightarrow> 0 | Some x \<Rightarrow> x) (d # ds)))
                 (of_nat (length (d # ds)))
             else if k = 0 then 0
             else min (fdiv rt (of_nat (length (d # ds))) (of_int k)) 1)"
  proof (cases "k = 0 \<and> (case ?kept of [] \<Rightarrow> False | d # _ \<Rightarrow> metadata_score d = None)")
    case True
    then have "quality_score rt ?kept k = Inl (ascii ''division by zero'')"
      by (simp add: quality_score_Inl)
    then have "retrieve_node rt vs k thr state
        = (retrieve_failed state (ascii ''division by zero''), [Search (effective_query state) k])"
      using found by (rule retrieve_node_score_failed [rotated])
    then show ?thesis
      using True by (auto simp: retrieve_failed_def split: list.splits)
  next
    case False
    from quality_score_Inr [OF False, of rt]
    obtain score where q: "quality_score rt ?kept k = Inr score"
      and v: "score = (case ?kept of
           [] \<Rightarrow> 0
         | d # ds \<Rightarrow>
             if metadata_score d \<noteq> None then
               fdiv rt
                 (fsum rt (map (\<lambda>doc. case metadata_score doc of None \<Rightarrow> 0 | Some x \<Rightarrow> x) ?kept))
                 (of_nat (length ?kept))
             else min (fdiv rt (of_nat (length ?kept)) (of_int k)) 1)"
      by blast
    have "retrieval_score (fst (retrieve_node rt vs k thr state)) = Some score"
      using found q by (simp add: retrieve_node_ok)
    then show ?thesis
      using False v by (auto split: list.splits)
  qed
next
  assume a: "vs (effective_query state) k = Inr docs \<and> docs \<noteq> []
        \<and> (\<forall>d\<in>set docs. metadata_score d \<noteq> None)"
  then obtain d ds where d: "docs = d # ds" by (cases docs) auto
  have "quality_score rt docs k
      = Inr (fdiv rt (fsum rt (map (\<lambda>doc. case metadata_score doc of None \<Rightarrow> 0 | Some x \<Rightarrow> x) docs))
             (of_nat (length docs)))"
    using a by (auto simp: quality_score_def d)
  then have "quality_score rt docs k
      = Inr (fdiv rt (fsum rt (map (\<lambda>d. the (metadata_score d)) docs)) (of_nat (length docs)))"
    using a sum_list_scores [of docs] by metis
  then show "retrieval_score (fst (retrieve_node rt vs k None state))
        = Some (fdiv rt (fsum rt (map (\<lambda>d. the (metadata_score d)) docs)) (of_nat (length docs)))"
    using a by (simp add: retrieve_node_def filter_docs_def Let_def)
next
  assume a: "vs (effective_query state) k = Inr docs \<and> docs \<noteq> []
        \<and> (\<forall>d\<in>set docs. metadata_score d = None) \<and> k \<noteq> 0"
  then obtain d ds where d: "docs = d # ds" by (cases docs) auto
  have "quality_score rt docs k = Inr (min (fdiv rt (of_nat (length docs)) (of_int k)) 1)"
    using a by (simp add: quality_score_def d)
  then show "retrieval_score (fst (retrieve_node rt vs k None state))
        = Some (min (fdiv rt (of_nat (length docs)) (of_int k)) 1)"
    using a by (simp add: retrieve_node_def filter_docs_def Let_def)
next
  show "retrieval_score (fst (retrieve_node exact_runtime
        (fixed_store [scored_doc (9 / 10), scored_doc (7 / 10), scored_doc (5 / 10), scored_doc (3 / 10)])
        4 None state)) = Some (6 / 10)"
    by (simp add: retrieve_node_def fixed_store_def scored_doc_def filter_docs_def
        quality_score_def exact_runtime_def Let_def)
next
  show "retrieval_score (fst (retrieve_node exact_runtime (fixed_store [example_doc, example_doc]) 4 None state))
        = Some (5 / 10)"
    by (simp add: retrieve_node_def fixed_store_def example_doc_def filter_docs_def
        quality_score_def exact_runtime_def Let_def)
qed

theorem retrieval_score_rule_witness:
  "failing_store (effective_query (create_initial_state (ascii ''q'') 5)) 4 = Inl (ascii ''timeout'')
   \<and> retrieval_score (fst (retrieve_node exact_runtime failing_store 4 None
        (create_initial_state (ascii ''q'') 5))) = Some 0
   \<and> fixed_store [scored_doc 1, example_doc] (effective_query (create_initial_state (ascii ''q'') 5)) 4
       = Inr [scored_doc 1, example_doc]
   \<and> retrieval_score (fst (retrieve_node exact_runtime (fixed_store [scored_doc 1, example_doc]) 4 None
        (create_initial_state (ascii ''q'') 5))) = Some (1 / 2)
   \<and> fixed_store [scored_doc 1, scored_doc 0] (effective_query (create_initial_state (ascii ''q'') 5)) 4
       = Inr [scored_doc 1, scored_doc 0]
   \<and> metadata_score (scored_doc 1) \<noteq> None \<and> metadata_score (scored_doc 0) \<noteq> None
   \<and> retrieval_score (fst (retrieve_node exact_runtime (fixed_store [scored_doc 1, scored_doc 0]) 4 None
        (create_initial_state (ascii ''q'') 5))) = Some (1 / 2)
   \<and> fixed_store [example_doc] (effective_query (create_initial_state (ascii ''q'') 5)) 4 = Inr [example_doc]
   \<and> metadata_score example_doc = None
   \<and> retrieval_score (fst (retrieve_node exact_runtime (fixed_store [example_doc]) 4 None
        (create_initial_state (ascii ''q'') 5))) = Some (1 / 4)"
  using retrieval_score_rule [where vs = failing_store and state = "create_initial_state (ascii ''q'') 5"
          and k = 4 and e = "ascii ''timeout''" and rt = exact_runtime and thr = None]
    retrieval_score_rule [where vs = "fixed_store [scored_doc 1, example_doc]"
          and state = "create_initial_state (ascii ''q'') 5" and k = 4
          and found = "[scored_doc 1, example_doc]" and rt = exact_runtime and thr = None]
    retrieval_score_rule [where vs = "fixed_store [scored_doc 1, scored_doc 0]"
          and state = "create_initial_state (ascii ''q'') 5" and k = 4
          and docs = "[scored_doc 1, scored_doc 0]" and rt = exact_runtime]
    retrieval_score_rule [where vs = "fixed_store [example_doc]"
          and state = "create_initial_state (ascii ''q'') 5" and k = 4
          and docs = "[example_doc]" and rt = exact_runtime]
  by (simp add: fixed_store_def failing_store_def scored_doc_def example_doc_def filter_docs_def
      exact_runtime_def)

text \<open>
  C3, as stated, fails: one document with score 1 and \<open>k = 4\<close> gives the
  quality score 1, which is not below 0.6, and yet \<open>need_more_context\<close> is set,
  because one document is fewer than \<open>k // 2\<close>.
\<close>

theorem need_more_context_counterexample:
  "retrieval_score (fst (retrieve_node exact_runtime (fixed_store [scored_doc 1]) 4 None
      (create_initial_state (ascii ''q'') 5))) = Some 1
   \<and> need_more_context (fst (retrieve_node exact_runtime (fixed_store [scored_doc 1]) 4 None
      (create_initial_state (ascii ''q'') 5))) = Some True
   \<and> \<not> (1 < FLOAT_0_6)"
  by (simp add: retrieve_node_def fixed_store_def scored_doc_def create_initial_state_def
      effective_query_def filter_docs_def quality_score_def get_step_count_def
      exact_runtime_def FLOAT_0_6_def Let_def)

text \<open>
  C3, amended. After every execution of \<open>retrieve_node\<close> the flag
  \<open>need_more_context\<close> is true if and only if the stored quality score is below 0.6
  or fewer than \<open>k // 2\<close> documents are stored. This covers the handler as well,
  which stores no documents, the score 0 and the flag true.
\<close>

theorem need_more_context_rule:
  "\<exists>score docs.
     retrieval_score (fst (retrieve_node rt vs k thr state)) = Some score
     \<and> retrieved_docs (fst (retrieve_node rt vs k thr state)) = Some docs
     \<and> need_more_context (fst (retrieve_node rt vs k thr state))
         = Some (score < FLOAT_0_6 \<or> int (length docs) < k div 2)"
proof (cases rule: retrieve_node_cases [of vs state k rt thr])
  case (ok found score)
  then show ?thesis by (simp add: retrieve_node_ok)
next
  case (failed e)
  then show ?thesis by (simp add: retrieve_failed_def FLOAT_0_6_def)
qed

text \<open>
  C9, as stated, fails: for a whitespace-only question the node searches the store
  with that query, and with a store that answers it sets no error and stores the
  documents and their score.
\<close>

theorem blank_query_counterexample:
  "effective_query (create_initial_state (ascii ''  '') 5) = ascii ''  ''
   \<and> snd (retrieve_node exact_runtime (fixed_store [example_doc]) 4 None (create_initial_state (ascii ''  '') 5))
       = [Search (ascii ''  '') 4]
   \<and> error (fst (retrieve_node exact_runtime (fixed_store [example_doc]) 4 None (create_initial_state (ascii ''  '') 5)))
       = None
   \<and> retrieved_docs (fst (retrieve_node exact_runtime (fixed_store [example_doc]) 4 None
        (create_initial_state (ascii ''  '') 5))) = Some [example_doc]
   \<and> retrieval_score (fst (retrieve_node exact_runtime (fixed_store [example_doc]) 4 None
        (create_initial_state (ascii ''  '') 5))) = Some (1 / 4)"
  by (simp add: retrieve_node_def fixed_store_def example_doc_def create_initial_state_def
      effective_query_def filter_docs_def quality_score_def get_step_count_def Let_def ascii_def
      exact_runtime_def)

text \<open>
  C9, amended. \<open>retrieve_node\<close> does not inspect the query: for every state, also
  one whose query is empty or whitespace-only, it performs exactly one search, with
  \<open>retrieval_query\<close> if that is present and not empty and with \<open>question\<close>
  otherwise. It sets the error field in exactly two cases: when the search raises,
  and when the search returns but \<open>k\<close> is 0 and the first kept fragment carries no
  score, so that \<open>len(docs) / k\<close> divides by zero. In both cases the error is the
  failure prefix followed by the cause, and the retrieval fields are not left
  absent: the documents become the empty list and the score 0. In every other case
  the error field is left as it was and the kept documents and their score are
  stored.
\<close>

theorem retrieve_always_searches:
  "snd (retrieve_node rt vs k thr state) = [Search (effective_query state) k]
   \<and> (vs (effective_query state) k = Inl e \<longrightarrow>
        error (fst (retrieve_node rt vs k thr state)) = Some (RETRIEVE_FAILED @ e)
        \<and> retrieved_docs (fst (retrieve_node rt vs k thr state)) = Some []
        \<and> retrieval_score (fst (retrieve_node rt vs k thr state)) = Some 0)
   \<and> (vs (effective_query state) k = Inr found
        \<and> k = 0 \<and> (case filter_docs thr found of [] \<Rightarrow> False | d # _ \<Rightarrow> metadata_score d = None) \<longrightarrow>
        error (fst (retrieve_node rt vs k thr state))
          = Some (RETRIEVE_FAILED @ ascii ''division by zero'')
        \<and> retrieved_docs (fst (retrieve_node rt vs k thr state)) = Some []
        \<and> retrieval_score (fst (retrieve_node rt vs k thr state)) = Some 0)
   \<and> (vs (effective_query state) k = Inr found
        \<and> \<not> (k = 0 \<and> (case filter_docs thr found of [] \<Rightarrow> False | d # _ \<Rightarrow> metadata_score d = None)) \<longrightarrow>
        error (fst (retrieve_node rt vs k thr state)) = error state
        \<and> retrieved_docs (fst (retrieve_node rt vs k thr state)) = Some (filter_docs thr found)
        \<and> retrieval_score (fst (retrieve_node rt vs k thr state)) \<noteq> None)"
proof (intro conjI impI)
  show "snd (retrieve_node rt vs k thr state) = [Search (effective_query state) k]"
    by (cases rule: retrieve_node_cases [of vs state k rt thr]) (simp_all add: retrieve_node_ok)
next
  assume a: "vs (effective_query state) k = Inl e"
  show "error (fst (retrieve_node rt vs k thr state)) = Some (RETRIEVE_FAILED @ e)"
    using a by (simp add: retrieve_node_search_failed retrieve_failed_def)
  show "retrieved_docs (fst (retrieve_node rt vs k thr state)) = Some []"
    using a by (simp add: retrieve_node_search_failed retrieve_failed_def)
  show "retrieval_score (fst (retrieve_node rt vs k thr state)) = Some 0"
    using a by (simp add: retrieve_node_search_failed retrieve_failed_def)
next
  assume a: "vs (effective_query state) k = Inr found
        \<and> k = 0 \<and> (case filter_docs thr found of [] \<Rightarrow> False | d # _ \<Rightarrow> metadata_score d = None)"
  then have "quality_score rt (filter_docs thr found) k = Inl (ascii ''division by zero'')"
    by (simp add: quality_score_Inl)
  moreover have "vs (effective_query state) k = Inr found" using a by blast
  ultimately have r: "retrieve_node rt vs k thr state
      = (retrieve_failed state (ascii ''division by zero''), [Search (effective_query state) k])"
    by (rule retrieve_node_score_failed [rotated])
  show "error (fst (retrieve_node rt vs k thr state))
          = Some (RETRIEVE_FAILED @ ascii ''division by zero'')"
    by (simp add: r retrieve_failed_def)
  show "retrieved_docs (fst (retrieve_node rt vs k thr state)) = Some []"
    by (simp add: r retrieve_failed_def)
  show "retrieval_score (fst (retrieve_node rt vs k thr state)) = Some 0"
    by (simp add: r retrieve_failed_def)
next
  assume a: "vs (effective_query state) k = Inr found
        \<and> \<not> (k = 0 \<and> (case filter_docs thr found of [] \<Rightarrow> False | d # _ \<Rightarrow> metadata_score d = None))"
  then obtain score where "quality_score rt (filter_docs thr found) k = Inr score"
    using quality_score_Inr [of k "filter_docs thr found" rt] by blast
  then have r: "retrieve_node rt vs k thr state =
     (state\<lparr>retrieved_docs := Some (filter_docs thr found),
            retrieval_score := Some score,
            current_node := Some (ascii ''retrieve''),
            step_count := Some (get_step_count state + 1),
            need_more_context :=
              Some (score < FLOAT_0_6 \<or> int (length (filter_docs thr found)) < k div 2)\<rparr>,
      [Search (effective_query state) k])"
    using a by (simp add: retrieve_node_ok)
  show "error (fst (retrieve_node rt vs k thr state)) = error state" by (simp add: r)
  show "retrieved_docs (fst (retrieve_node rt vs k thr state)) = Some (filter_docs thr found)"
    by (simp add: r)
  show "retrieval_score (fst (retrieve_node rt vs k thr state)) \<noteq> None" by (simp add: r)
qed

theorem retrieve_always_searches_witness:
  "snd (retrieve_node exact_runtime (fixed_store [example_doc]) 4 None (create_initial_state [] 5)) = [Search [] 4]
   \<and> fixed_store [example_doc] (effective_query (create_initial_state [] 5)) 4 = Inr [example_doc]
   \<and> error (fst (retrieve_node exact_runtime (fixed_store [example_doc]) 4 None (create_initial_state [] 5))) = None
   \<and> retrieved_docs (fst (retrieve_node exact_runtime (fixed_store [example_doc]) 4 None (create_initial_state [] 5)))
       = Some [example_doc]
   \<and> failing_store (effective_query (create_initial_state [] 5)) 4 = Inl (ascii ''timeout'')
   \<and> error (fst (retrieve_node exact_runtime failing_store 4 None (create_initial_state [] 5)))
       = Some (RETRIEVE_FAILED @ ascii ''timeout'')
   \<and> retrieved_docs (fst (retrieve_node exact_runtime failing_store 4 None (create_initial_state [] 5))) = Some []
   \<and> fixed_store [example_doc] (effective_query (create_initial_state [] 5)) 0 = Inr [example_doc]
   \<and> metadata_score example_doc = None
   \<and> error (fst (retrieve_node exact_runtime (fixed_store [example_doc]) 0 None (create_initial_state [] 5)))
       = Some (RETRIEVE_FAILED @ ascii ''division by zero'')
   \<and> retrieved_docs (fst (retrieve_node exact_runtime (fixed_store [example_doc]) 0 None
        (create_initial_state [] 5))) = Some []"
  using retrieve_always_searches [where vs = "fixed_store [example_doc]" and k = 4 and thr = None
          and state = "create_initial_state [] 5" and found = "[example_doc]" and rt = exact_runtime]
    retrieve_always_searches [where vs = failing_store and k = 4 and thr = None
          and state = "create_initial_state [] 5" and e = "ascii ''timeout''" and rt = exact_runtime]
    retrieve_always_searches [where vs = "fixed_store [example_doc]" and k = 0 and thr = None
          and state = "create_initial_state [] 5" and found = "[example_doc]" and rt = exact_runtime]
  by (simp add: fixed_store_def failing_store_def effective_query_def create_initial_state_def
      filter_docs_def example_doc_def)

section \<open>The generation step\<close>

text \<open>
  C6. For every state whose \<open>retrieved_docs\<close> is present and empty,
  \<open>generate_node\<close> stores the fixed answer and the confidence 0, makes no call to
  the language model, leaves the error field as it was and counts one step.
\<close>

theorem generate_short_circuit:
  assumes "retrieved_docs state = Some []"
  shows "answer (fst (generate_node rt model tmpl with_sources state)) = Some NO_INFO_ANSWER
    \<and> confidence_score (fst (generate_node rt model tmpl with_sources state)) = Some 0
    \<and> snd (generate_node rt model tmpl with_sources state) = []
    \<and> error (fst (generate_node rt model tmpl with_sources state)) = error state
    \<and> get_step_count (fst (generate_node rt model tmpl with_sources state)) = get_step_count state + 1"
  using assms by (simp add: generate_node_def get_step_count_def)

theorem generate_short_circuit_witness:
  "retrieved_docs (needy_state 0 []) = Some []
   \<and> answer (fst (generate_node exact_runtime stub_llm [Field (ascii ''context'')] False (needy_state 0 []))) = Some NO_INFO_ANSWER
   \<and> confidence_score (fst (generate_node exact_runtime stub_llm [Field (ascii ''context'')] False (needy_state 0 []))) = Some 0
   \<and> snd (generate_node exact_runtime stub_llm [Field (ascii ''context'')] False (needy_state 0 [])) = []"
  using generate_short_circuit [of "needy_state 0 []" exact_runtime stub_llm "[Field (ascii ''context'')]" False]
  by (simp add: needy_state_def)

section \<open>The routing decision\<close>

text \<open>
  C4, as stated, fails: after a retrieval of one document with score 0.5 and
  \<open>k = 2\<close>, no terminal condition holds, the documents are present and
  \<open>need_more_context\<close> is true, and \<open>decide_node\<close> returns \<open>"generate"\<close>.
\<close>

theorem rewrite_counterexample:
  "get_step_count (fst (retrieve_node exact_runtime (fixed_store [scored_doc (1 / 2)]) 2 None
      (create_initial_state (ascii ''q'') 5)))
     < get_max_steps (fst (retrieve_node exact_runtime (fixed_store [scored_doc (1 / 2)]) 2 None
      (create_initial_state (ascii ''q'') 5)))
   \<and> answer (fst (retrieve_node exact_runtime (fixed_store [scored_doc (1 / 2)]) 2 None
      (create_initial_state (ascii ''q'') 5))) = None
   \<and> error (fst (retrieve_node exact_runtime (fixed_store [scored_doc (1 / 2)]) 2 None
      (create_initial_state (ascii ''q'') 5))) = None
   \<and> retrieved_docs (fst (retrieve_node exact_runtime (fixed_store [scored_doc (1 / 2)]) 2 None
      (create_initial_state (ascii ''q'') 5))) = Some [scored_doc (1 / 2)]
   \<and> need_more_context (fst (retrieve_node exact_runtime (fixed_store [scored_doc (1 / 2)]) 2 None
      (create_initial_state (ascii ''q'') 5))) = Some True
   \<and> decide_node (fst (retrieve_node exact_runtime (fixed_store [scored_doc (1 / 2)]) 2 None
      (create_initial_state (ascii ''q'') 5))) = GENERATE
   \<and> GENERATE \<noteq> REWRITE_QUERY"
  by (simp add: retrieve_node_def fixed_store_def scored_doc_def create_initial_state_def
      effective_query_def filter_docs_def quality_score_def get_step_count_def get_max_steps_def
      decide_node_def truthy_def exact_runtime_def FLOAT_0_6_def Let_def)

text \<open>
  C4, amended. For every state in which no terminal condition holds, the
  documents are present and \<open>need_more_context\<close> is true, \<open>decide_node\<close> returns
  \<open>"rewrite_query"\<close> exactly when the retrieval score (0 if missing) is below 0.5;
  otherwise it returns \<open>"generate"\<close> if there is at least one document and
  \<open>"end"\<close> if there is none.
\<close>

theorem decide_node_need_more:
  assumes "get_step_count state < get_max_steps state"
    and "\<not> truthy (answer state)" and "\<not> truthy (error state)"
    and "retrieved_docs state = Some docs"
    and "need_more_context state = Some True"
  shows "decide_node state =
     (if (case retrieval_score state of None \<Rightarrow> 0 | Some x \<Rightarrow> x) < 5 / 10 then REWRITE_QUERY
      else if docs \<noteq> [] then GENERATE
      else END)"
  using assms by (simp add: decide_node_def Let_def)

theorem decide_node_need_more_witness:
  "get_step_count (needy_state (1 / 4) [example_doc]) < get_max_steps (needy_state (1 / 4) [example_doc])
   \<and> \<not> truthy (answer (needy_state (1 / 4) [example_doc]))
   \<and> \<not> truthy (error (needy_state (1 / 4) [example_doc]))
   \<and> retrieved_docs (needy_state (1 / 4) [example_doc]) = Some [example_doc]
   \<and> need_more_context (needy_state (1 / 4) [example_doc]) = Some True
   \<and> decide_node (needy_state (1 / 4) [example_doc]) = REWRITE_QUERY
   \<and> decide_node (needy_state (1 / 2) [example_doc]) = GENERATE
   \<and> decide_node (needy_state (1 / 2) []) = END"
proof -
  have a: "get_step_count (needy_state x ds) < get_max_steps (needy_state x ds)"
      "\<not> truthy (answer (needy_state x ds))" "\<not> truthy (error (needy_state x ds))"
      "retrieved_docs (needy_state x ds) = Some ds"
      "need_more_context (needy_state x ds) = Some True" for x ds
    by (simp_all add: needy_state_def create_initial_state_def get_step_count_def
        get_max_steps_def truthy_def)
  show ?thesis
    using decide_node_need_more [OF a, of "1 / 4" "[example_doc]"]
      decide_node_need_more [OF a, of "1 / 2" "[example_doc]"]
      decide_node_need_more [OF a, of "1 / 2" "[]"] a [of "1 / 4" "[example_doc]"]
    by (simp add: needy_state_def create_initial_state_def)
qed

section \<open>The turn: termination and terminal conditions\<close>

lemma truthy_simps [simp]:
  "truthy None = False" "truthy (Some s) = (s \<noteq> [])"
  by (simp_all add: truthy_def)

lemma decide_node_continue:
  assumes "decide_node s \<noteq> END"
  shows "get_step_count s < get_max_steps s" "\<not> truthy (answer s)" "\<not> truthy (error s)"
  using assms by (auto simp: decide_node_def split: if_splits)

lemma decide_node_RETRIEVE: "decide_node s = RETRIEVE \<Longrightarrow> retrieved_docs s = None"
  by (auto simp: decide_node_def Let_def split: if_splits)

lemma decide_node_GENERATE: "decide_node s = GENERATE \<Longrightarrow> retrieved_docs s \<noteq> None"
  by (auto simp: decide_node_def Let_def split: if_splits)

lemma decide_node_REWRITE: "decide_node s = REWRITE_QUERY \<Longrightarrow> retrieved_docs s \<noteq> None"
  by (auto simp: decide_node_def Let_def split: if_splits)

lemma decide_node_END:
  assumes "decide_node s = END"
  shows "get_max_steps s \<le> get_step_count s \<or> truthy (answer s) \<or> truthy (error s)
     \<or> (retrieved_docs s = Some []
         \<and> \<not> (need_more_context s = Some True
               \<and> (case retrieval_score s of None \<Rightarrow> 0 | Some x \<Rightarrow> x) < 5 / 10))"
  using assms by (auto simp: decide_node_def Let_def split: if_splits option.splits)

lemma generate_node_cases:
  obtains (short) "retrieved_docs s = None \<or> retrieved_docs s = Some []"
      "generate_node rt m t i s =
         (s\<lparr>answer := Some NO_INFO_ANSWER, confidence_score := Some 0,
            current_node := Some (ascii ''generate''),
            step_count := Some (get_step_count s + 1)\<rparr>, [])"
  | (ok) a c calls where
      "generate_node rt m t i s =
         (s\<lparr>answer := Some a, confidence_score := Some c,
            current_node := Some (ascii ''generate''),
            step_count := Some (get_step_count s + 1)\<rparr>, calls)"
  | (failed) e calls where "generate_node rt m t i s = (generate_failed s e, calls)"
proof (cases "(case retrieved_docs s of None \<Rightarrow> [] | Some ds \<Rightarrow> ds) = []")
  case True
  then have "retrieved_docs s = None \<or> retrieved_docs s = Some []"
    by (auto split: option.splits)
  then show ?thesis using short True by (simp add: generate_node_def)
next
  case False
  let ?docs = "case retrieved_docs s of None \<Rightarrow> [] | Some ds \<Rightarrow> ds"
  show ?thesis
  proof (cases "format_template t [(ascii ''context'', node_context ?docs), (ascii ''question'', question s)]")
    case (Inl e)
    then have "generate_node rt m t i s = (generate_failed s e, [])"
      using False by (simp add: generate_node_def)
    then show ?thesis by (rule failed)
  next
    case (Inr prompt)
    note p = this
    show ?thesis
    proof (cases "generate m prompt")
      case (Inl e)
      then have "generate_node rt m t i s = (generate_failed s e, [Generate prompt])"
        using False p by (simp add: generate_node_def)
      then show ?thesis by (rule failed)
    next
      case (Inr generated)
      then have "\<exists>a c. generate_node rt m t i s =
         (s\<lparr>answer := Some a, confidence_score := Some c,
            current_node := Some (ascii ''generate''),
            step_count := Some (get_step_count s + 1)\<rparr>, [Generate prompt])"
        using False p by (cases i) (simp_all add: generate_node_def Let_def, blast+)
      then show ?thesis using ok by blast
    qed
  qed
qed

lemma quality_score_Nil [simp]: "quality_score rt [] k = Inr 0"
  by (simp add: quality_score_def)

lemma retrieve_node_results:
  obtains (stored) docs score where
      "retrieve_node rt vs k thr s =
         (s\<lparr>retrieved_docs := Some docs, retrieval_score := Some score,
            current_node := Some (ascii ''retrieve''),
            step_count := Some (get_step_count s + 1),
            need_more_context := Some (score < FLOAT_0_6 \<or> int (length docs) < k div 2)\<rparr>,
          [Search (effective_query s) k])"
      "docs = [] \<longrightarrow> score = 0"
  | (handled) e where
      "retrieve_node rt vs k thr s = (retrieve_failed s e, [Search (effective_query s) k])"
proof (cases rule: retrieve_node_cases [of vs s k rt thr])
  case (ok found score)
  have "filter_docs thr found = [] \<longrightarrow> score = 0"
    using ok(2) by auto
  then show ?thesis
    using retrieve_node_ok [of vs s k found rt thr score] ok stored by blast
next
  case (failed e)
  then show ?thesis by (rule handled)
qed

lemma error_prefix_truthy [simp]: "RETRIEVE_FAILED \<noteq> []" "GENERATE_FAILED \<noteq> []"
  by (simp_all add: RETRIEVE_FAILED_def GENERATE_FAILED_def)

lemma run_step_progress:
  assumes d: "decide_node s = d" "d \<noteq> END"
    and rw: "\<And>rw s. rewrite_step orch = Some rw \<Longrightarrow>
        get_step_count (rw s) = get_step_count s + 1 \<and> get_max_steps (rw s) = get_max_steps s"
  shows "get_max_steps (fst (run_step orch n d s)) = get_max_steps s
    \<and> (truthy (error (fst (run_step orch n d s)))
       \<or> get_step_count (fst (run_step orch n d s)) = get_step_count s + 1)"
proof -
  have gen: "get_max_steps (fst (generate_node rt m t i s)) = get_max_steps s
    \<and> (truthy (error (fst (generate_node rt m t i s)))
       \<or> get_step_count (fst (generate_node rt m t i s)) = get_step_count s + 1)" for rt m t i
    by (cases rule: generate_node_cases [of s rt m t i])
      (simp_all add: get_max_steps_def get_step_count_def generate_failed_def)
  have ret: "get_max_steps (fst (retrieve_node rt vs k thr s)) = get_max_steps s
    \<and> (truthy (error (fst (retrieve_node rt vs k thr s)))
       \<or> get_step_count (fst (retrieve_node rt vs k thr s)) = get_step_count s + 1)" for rt vs k thr
    by (cases rule: retrieve_node_results [of rt vs k thr s])
      (simp_all add: get_max_steps_def get_step_count_def retrieve_failed_def)
  show ?thesis
  proof (cases d)
    case RETRIEVE
    then show ?thesis using ret by (simp add: run_step_def)
  next
    case REWRITE_QUERY
    then show ?thesis using gen rw by (simp add: run_step_def split: option.splits)
  next
    case GENERATE
    then show ?thesis using gen by (simp add: run_step_def)
  next
    case END
    then show ?thesis using d by simp
  qed
qed

lemma run_loop_terminates:
  assumes rw: "\<And>rw s. rewrite_step orch = Some rw \<Longrightarrow>
        get_step_count (rw s) = get_step_count s + 1 \<and> get_max_steps (rw s) = get_max_steps s"
  shows "(if truthy (error s) then 0 else nat (get_max_steps s - get_step_count s)) < fuel \<Longrightarrow>
    \<exists>final m calls. run_loop fuel orch n made s = Some (final, m, calls)
      \<and> m \<le> n + (if truthy (error s) then 0 else nat (get_max_steps s - get_step_count s))"
proof (induction fuel arbitrary: s n made)
  case 0
  then show ?case by simp
next
  case (Suc fuel)
  show ?case
  proof (cases "decide_node s = END")
    case True
    then show ?thesis by simp
  next
    case False
    let ?s' = "fst (run_step orch n (decide_node s) s)"
    let ?calls = "snd (run_step orch n (decide_node s) s)"
    let ?rem = "\<lambda>s. if truthy (error s) then 0 else nat (get_max_steps s - get_step_count s)"
    have c: "get_step_count s < get_max_steps s" "\<not> truthy (error s)"
      using decide_node_continue [OF False] by simp_all
    have p: "get_max_steps ?s' = get_max_steps s"
      "truthy (error ?s') \<or> get_step_count ?s' = get_step_count s + 1"
      using run_step_progress [of s "decide_node s" orch n] False rw by simp_all
    have less: "Suc (?rem ?s') \<le> ?rem s"
      using c p by auto
    then have "?rem ?s' < fuel" using Suc.prems by simp
    from Suc.IH [OF this, of "Suc n" "made @ ?calls"]
    obtain final m calls where r: "run_loop fuel orch (Suc n) (made @ ?calls) ?s' = Some (final, m, calls)"
      and m: "m \<le> Suc n + ?rem ?s'" by blast
    have "run_loop (Suc fuel) orch n made s = run_loop fuel orch (Suc n) (made @ ?calls) ?s'"
      using False by (cases "decide_node s") (simp_all add: split_beta)
    then show ?thesis using r m less by auto
  qed
qed

lemma run_loop_invariant:
  assumes step: "\<And>s n. P s \<Longrightarrow> decide_node s \<noteq> END \<Longrightarrow> P (fst (run_step orch n (decide_node s) s))"
  shows "P s \<Longrightarrow> run_loop fuel orch n made s = Some (final, m, calls) \<Longrightarrow>
     P final \<and> decide_node final = END"
proof (induction fuel arbitrary: s n made)
  case 0
  then show ?case by simp
next
  case (Suc fuel)
  show ?case
  proof (cases "decide_node s = END")
    case True
    then show ?thesis using Suc.prems by simp
  next
    case False
    let ?s' = "fst (run_step orch n (decide_node s) s)"
    let ?calls = "snd (run_step orch n (decide_node s) s)"
    have "run_loop (Suc fuel) orch n made s = run_loop fuel orch (Suc n) (made @ ?calls) ?s'"
      using False by (cases "decide_node s") (simp_all add: split_beta)
    then have "run_loop fuel orch (Suc n) (made @ ?calls) ?s' = Some (final, m, calls)"
      using Suc.prems by simp
    from Suc.IH [OF step [OF Suc.prems(1) False] this] show ?thesis .
  qed
qed

lemmas run_defs =
  run_turn_def source_orchestrator_def example_orchestrator_def run_step_def
  decide_node_def create_initial_state_def retrieve_node_def generate_node_def
  fixed_store_def effective_query_def rewrite_query_node_def
  filter_docs_def quality_score_def get_step_count_def get_max_steps_def exact_runtime_def
  FLOAT_0_6_def FLOAT_0_4_def Let_def

text \<open>
  What does hold of the loop. The retrieval and generation steps of the source each
  either count themselves or set the error field, which ends the turn at the next
  decision. So with no rewrite step, or with one that increments \<open>step_count\<close> by
  one and leaves \<open>max_steps\<close> alone, the loop returns for every behaviour of the
  document store and the language model, after at most \<open>step_budget\<close> step
  executions; any fuel above the budget is enough.
\<close>

lemma run_turn_returns_when_steps_count:
  assumes budget: "0 \<le> step_budget"
    and rw: "\<forall>rw s. rewrite_step orch = Some rw \<longrightarrow>
        get_step_count (rw s) = get_step_count s + 1 \<and> get_max_steps (rw s) = get_max_steps s"
    and fuel: "nat step_budget < fuel"
  shows "\<exists>final n calls. run_turn fuel orch q step_budget = Some (final, n, calls)
      \<and> int n \<le> step_budget"
proof -
  let ?s = "create_initial_state q step_budget"
  have rem: "(if truthy (error ?s) then 0 else nat (get_max_steps ?s - get_step_count ?s)) = nat step_budget"
    by (simp add: create_initial_state_def get_max_steps_def get_step_count_def)
  have "\<exists>final m calls. run_loop fuel orch 0 [] ?s = Some (final, m, calls)
      \<and> m \<le> 0 + (if truthy (error ?s) then 0 else nat (get_max_steps ?s - get_step_count ?s))"
  proof (rule run_loop_terminates)
    show "get_step_count (rw s) = get_step_count s + 1 \<and> get_max_steps (rw s) = get_max_steps s"
      if "rewrite_step orch = Some rw" for rw s
      using rw that by blast
    show "(if truthy (error ?s) then 0 else nat (get_max_steps ?s - get_step_count ?s)) < fuel"
      using fuel by (simp only: rem)
  qed
  then show ?thesis using budget by (auto simp: run_turn_def rem)
qed

lemma decide_node_rewrite_query_node [simp]:
  "decide_node (rewrite_query_node resolve s) = decide_node s"
  by (simp add: rewrite_query_node_def decide_node_def get_step_count_def get_max_steps_def)



lemma turn_invariant_initial: "0 \<le> budget \<Longrightarrow> turn_invariant budget (create_initial_state q budget)"
  by (simp add: turn_invariant_def create_initial_state_def)

lemma turn_invariant_continue:
  assumes inv: "turn_invariant B s" and d: "decide_node s \<noteq> END"
  shows "error s = None" "\<exists>c. step_count s = Some c \<and> c < B" "max_steps s = Some B"
proof -
  have e: "\<not> truthy (error s)" and c: "get_step_count s < get_max_steps s"
    using decide_node_continue [OF d] by simp_all
  show "error s = None"
    using inv e by (auto simp: turn_invariant_def)
  show "max_steps s = Some B" using inv by (simp add: turn_invariant_def)
  show "\<exists>c. step_count s = Some c \<and> c < B"
    using inv c by (auto simp: turn_invariant_def get_step_count_def get_max_steps_def)
qed

lemma generate_node_invariant:
  assumes inv: "turn_invariant B s" and d: "decide_node s \<noteq> END"
    and docs: "retrieved_docs s \<noteq> None"
  shows "turn_invariant B (fst (generate_node rt m t i s))"
proof -
  from turn_invariant_continue [OF inv d] obtain c where
    e: "error s = None" and c: "step_count s = Some c" "c < B" and m: "max_steps s = Some B"
    by blast
  have keep: "retrieved_docs s = Some [] \<longrightarrow>
      need_more_context s = Some True \<and> retrieval_score s = Some 0"
    using inv by (simp add: turn_invariant_def)
  show ?thesis
  proof (cases rule: generate_node_cases [of s rt m t i])
    case short
    then show ?thesis
      using e c m docs keep by (simp add: turn_invariant_def get_step_count_def)
  next
    case (ok a c' calls)
    then show ?thesis
      using e c m docs keep by (simp add: turn_invariant_def get_step_count_def)
  next
    case (failed e' calls)
    then show ?thesis
      using e c m docs keep by (simp add: turn_invariant_def generate_failed_def)
  qed
qed

lemma retrieve_node_invariant:
  assumes inv: "turn_invariant B s" and d: "decide_node s = RETRIEVE"
  shows "turn_invariant B (fst (retrieve_node rt vs k thr s))"
proof -
  have d': "decide_node s \<noteq> END" using d by simp
  from turn_invariant_continue [OF inv d'] obtain c where
    e: "error s = None" and c: "step_count s = Some c" "c < B" and m: "max_steps s = Some B"
    by blast
  have "retrieved_docs s = None" using d by (rule decide_node_RETRIEVE)
  then have a: "answer s = None" using inv by (simp add: turn_invariant_def)
  show ?thesis
  proof (cases rule: retrieve_node_results [of rt vs k thr s])
    case (stored docs score)
    then show ?thesis
      using e c m a by (auto simp: turn_invariant_def get_step_count_def FLOAT_0_6_def)
  next
    case (handled e')
    then show ?thesis
      using e c m a by (simp add: turn_invariant_def retrieve_failed_def)
  qed
qed

lemma run_step_invariant:
  assumes inv: "turn_invariant B s" and d: "decide_node s \<noteq> END"
    and rw: "\<And>rw s. rewrite_step orch = Some rw \<Longrightarrow>
        \<exists>rq. rw s = s\<lparr>retrieval_query := rq\<rparr>
           \<or> rw s = s\<lparr>retrieval_query := rq, step_count := Some (get_step_count s + 1)\<rparr>"
  shows "turn_invariant B (fst (run_step orch n (decide_node s) s))"
proof (cases "decide_node s")
  case RETRIEVE
  then show ?thesis using retrieve_node_invariant [OF inv RETRIEVE] by (simp add: run_step_def)
next
  case GENERATE
  then show ?thesis
    using generate_node_invariant [OF inv d decide_node_GENERATE [OF GENERATE]]
    by (simp add: run_step_def)
next
  case END
  then show ?thesis using d by simp
next
  case REWRITE_QUERY
  show ?thesis
  proof (cases "rewrite_step orch")
    case None
    then show ?thesis
      using generate_node_invariant [OF inv d decide_node_REWRITE [OF REWRITE_QUERY]] REWRITE_QUERY
      by (simp add: run_step_def)
  next
    case (Some f)
    from rw [OF Some, of s] obtain rq where
      f: "f s = s\<lparr>retrieval_query := rq\<rparr>
         \<or> f s = s\<lparr>retrieval_query := rq, step_count := Some (get_step_count s + 1)\<rparr>" by blast
    from turn_invariant_continue [OF inv d] obtain c where
      c: "step_count s = Some c" "c < B" by blast
    have "turn_invariant B (f s)"
      using inv c f by (auto simp: turn_invariant_def get_step_count_def)
    then show ?thesis using Some REWRITE_QUERY by (simp add: run_step_def)
  qed
qed

text \<open>
  C1, as stated, fails: when the language model raises, the handler of
  \<open>generate_node\<close> stores the error and a fixed apology as the answer, so the turn
  ends, after two steps, with both fields present.
\<close>

theorem answer_and_error_counterexample:
  "run_turn (Suc (Suc (Suc 0))) (example_orchestrator (fixed_store [scored_doc 1]) failing_llm 1) (ascii ''q'') 5 \<noteq> None
   \<and> answer (fst (the (run_turn (Suc (Suc (Suc 0))) (example_orchestrator (fixed_store [scored_doc 1]) failing_llm 1)
         (ascii ''q'') 5))) = Some GENERATION_ERROR_ANSWER
   \<and> error (fst (the (run_turn (Suc (Suc (Suc 0))) (example_orchestrator (fixed_store [scored_doc 1]) failing_llm 1)
         (ascii ''q'') 5))) = Some (GENERATE_FAILED @ ascii ''unreachable'')
   \<and> fst (snd (the (run_turn (Suc (Suc (Suc 0))) (example_orchestrator (fixed_store [scored_doc 1]) failing_llm 1)
         (ascii ''q'') 5))) = 2"
  by (simp add: run_turn_def example_orchestrator_def run_step_def
      decide_node_def create_initial_state_def retrieve_node_def generate_node_def
      generate_failed_def fixed_store_def scored_doc_def failing_llm_def effective_query_def
      filter_docs_def quality_score_def get_step_count_def get_max_steps_def truthy_def
      GENERATE_FAILED_def GENERATION_ERROR_ANSWER_def ascii_def Let_def)

text \<open>
  C1, amended. Every turn that returns ends with at least one terminal condition: an
  answer, an error, or \<open>step_count\<close> equal to the budget. When an error is present,
  either retrieval failed and there is no answer, or generation failed and the
  answer is the fixed apology; so answer and error are present together only after
  a failed generation, and otherwise exactly one of the three conditions holds.
  This is so when there is no rewrite step, and then every turn returns; and it is
  so with a rewrite step that changes nothing but the retrieval query, as the
  rewrite node of the source does, whether or not it also counts itself as a step.
\<close>

theorem turn_terminal_conditions:
  assumes budget: "0 \<le> step_budget"
    and rw: "\<forall>rw s. rewrite_step orch = Some rw \<longrightarrow>
        (\<exists>rq. rw s = s\<lparr>retrieval_query := rq\<rparr>
           \<or> rw s = s\<lparr>retrieval_query := rq, step_count := Some (get_step_count s + 1)\<rparr>)"
  shows "(\<forall>final n calls. run_turn fuel orch q step_budget = Some (final, n, calls) \<longrightarrow>
       (answer final \<noteq> None \<or> error final \<noteq> None \<or> step_count final = Some step_budget)
       \<and> (error final \<noteq> None \<longrightarrow>
            (answer final = None \<and> (\<exists>e. error final = Some (RETRIEVE_FAILED @ e)))
            \<or> (answer final = Some GENERATION_ERROR_ANSWER
               \<and> (\<exists>e. error final = Some (GENERATE_FAILED @ e)))))
    \<and> (rewrite_step orch = None \<and> nat step_budget < fuel \<longrightarrow>
         run_turn fuel orch q step_budget \<noteq> None)"
proof (intro conjI allI impI)
  fix final n calls
  assume "run_turn fuel orch q step_budget = Some (final, n, calls)"
  then have run: "run_loop fuel orch 0 [] (create_initial_state q step_budget) = Some (final, n, calls)"
    by (simp add: run_turn_def)
  have "turn_invariant step_budget final \<and> decide_node final = END"
  proof (rule run_loop_invariant [where P = "turn_invariant step_budget", OF _ _ run])
    show "turn_invariant step_budget (create_initial_state q step_budget)"
      using budget by (rule turn_invariant_initial)
    show "turn_invariant step_budget (fst (run_step orch n (decide_node s) s))"
      if "turn_invariant step_budget s" "decide_node s \<noteq> END" for s n
      using that rw by (intro run_step_invariant) blast+
  qed
  then have inv: "turn_invariant step_budget final" and fin: "decide_node final = END"
    by simp_all
  show "answer final \<noteq> None \<or> error final \<noteq> None \<or> step_count final = Some step_budget"
    using decide_node_END [OF fin] inv
    by (auto simp: turn_invariant_def get_step_count_def get_max_steps_def truthy_def
        split: option.splits)
  show "(answer final = None \<and> (\<exists>e. error final = Some (RETRIEVE_FAILED @ e)))
          \<or> (answer final = Some GENERATION_ERROR_ANSWER
             \<and> (\<exists>e. error final = Some (GENERATE_FAILED @ e)))"
    if "error final \<noteq> None"
    using inv that by (auto simp: turn_invariant_def)
next
  assume a: "rewrite_step orch = None \<and> nat step_budget < fuel"
  have "\<exists>final n calls. run_turn fuel orch q step_budget = Some (final, n, calls)
      \<and> int n \<le> step_budget"
    using budget a by (intro run_turn_returns_when_steps_count) simp_all
  then show "run_turn fuel orch q step_budget \<noteq> None" by auto
qed

theorem turn_terminal_conditions_witness:
  "(0 :: int) \<le> 5
   \<and> rewrite_step (source_orchestrator (fixed_store [scored_doc 1]) stub_llm 1)
       = Some (rewrite_query_node question)
   \<and> answer (fst (the (run_turn (Suc (Suc (Suc 0)))
        (source_orchestrator (fixed_store [scored_doc 1]) stub_llm 1) (ascii ''q'') 5))) = Some (ascii ''ok'')
   \<and> error (fst (the (run_turn (Suc (Suc (Suc 0)))
        (source_orchestrator (fixed_store [scored_doc 1]) stub_llm 1) (ascii ''q'') 5))) = None
   \<and> (\<exists>final n calls.
         run_turn (Suc (Suc (Suc 0))) (source_orchestrator (fixed_store [scored_doc 1]) stub_llm 1)
           (ascii ''q'') 5 = Some (final, n, calls)
         \<and> (answer final \<noteq> None \<or> error final \<noteq> None \<or> step_count final = Some 5))
   \<and> rewrite_step (example_orchestrator (fixed_store []) stub_llm 4) = None
   \<and> nat 2 < Suc (Suc (Suc 0))
   \<and> run_turn (Suc (Suc (Suc 0))) (example_orchestrator (fixed_store []) stub_llm 4) (ascii ''q'') 2
       \<noteq> None"
proof -
  let ?orch = "source_orchestrator (fixed_store [scored_doc 1]) stub_llm 1"
  let ?plain = "example_orchestrator (fixed_store []) stub_llm 4"
  have rw: "\<forall>rw s. rewrite_step ?orch = Some rw \<longrightarrow>
        (\<exists>rq. rw s = s\<lparr>retrieval_query := rq\<rparr>
           \<or> rw s = s\<lparr>retrieval_query := rq, step_count := Some (get_step_count s + 1)\<rparr>)"
    by (auto simp: source_orchestrator_def rewrite_query_node_def)
  have rw': "\<forall>rw s. rewrite_step ?plain = Some rw \<longrightarrow>
        (\<exists>rq. rw s = s\<lparr>retrieval_query := rq\<rparr>
           \<or> rw s = s\<lparr>retrieval_query := rq, step_count := Some (get_step_count s + 1)\<rparr>)"
    by (simp add: example_orchestrator_def)
  have b: "(0 :: int) \<le> 5" and b': "(0 :: int) \<le> 2" by simp_all
  have run: "run_turn (Suc (Suc (Suc 0))) ?orch (ascii ''q'') 5 \<noteq> None"
    "answer (fst (the (run_turn (Suc (Suc (Suc 0))) ?orch (ascii ''q'') 5))) = Some (ascii ''ok'')"
    "error (fst (the (run_turn (Suc (Suc (Suc 0))) ?orch (ascii ''q'') 5))) = None"
    by (simp_all add: run_defs scored_doc_def stub_llm_def truthy_def ascii_def)
  then obtain final n calls where
    r: "run_turn (Suc (Suc (Suc 0))) ?orch (ascii ''q'') 5 = Some (final, n, calls)"
    by (cases "run_turn (Suc (Suc (Suc 0))) ?orch (ascii ''q'') 5") auto
  have "answer final \<noteq> None \<or> error final \<noteq> None \<or> step_count final = Some 5"
    using turn_terminal_conditions [OF b rw, of "Suc (Suc (Suc 0))" "ascii ''q''"] r by blast
  moreover have "run_turn (Suc (Suc (Suc 0))) ?plain (ascii ''q'') 2 \<noteq> None"
    using turn_terminal_conditions [OF b' rw', of "Suc (Suc (Suc 0))" "ascii ''q''"]
    by (simp add: example_orchestrator_def)
  ultimately show ?thesis
    using run r by (simp add: source_orchestrator_def example_orchestrator_def)
qed

end
